theory Spec2Isabelle
  imports Complex_Main
begin

section \<open>Data model\<close>

text \<open>
  A GeoJSON position is the pair (longitude, latitude). JavaScript numbers are taken as
  reals: the distance and length routines of the libraries are assumed to return finite
  numbers (no NaN), and the one multiplication of the source is the multiplication of
  reals. A point Feature is identified with its position, a LineString Feature of the
  network with the list of its coordinates in the order \<open>coordEach\<close> visits them.
\<close>

type_synonym position = "real \<times> real"

type_synonym feature = "position list"

text \<open>Every value passed to \<open>console.log\<close>, in order.\<close>

datatype console_entry = LogNumber nat | LogString string

type_synonym console = "console_entry list"

text \<open>
  The exceptions the pipeline can raise:
  \<^item> \<open>TypeError_undefined\<close>: \<open>coordEach\<close> reads \<open>.type\<close> of \<open>marnet.features[i]\<close> when
    that is \<open>undefined\<close>;
  \<^item> \<open>Error_coordinates_required\<close>: \<open>turfHelpers.point(null)\<close>;
  \<^item> \<open>Error_two_or_more_positions\<close>: \<open>turfHelpers.lineString\<close> on fewer than two
    positions;
  \<^item> \<open>Error_thrown\<close>: whatever the length routine throws (for instance on a unit it
    does not know).
\<close>

datatype error =
    TypeError_undefined
  | Error_coordinates_required
  | Error_two_or_more_positions
  | Error_thrown string

text \<open>
  The object \<open>turfHelpers.lineString\<close> returns: its geometry's coordinates and its
  \<open>properties\<close>, which start empty and receive \<open>units\<close> and \<open>length\<close>.
\<close>

record lineString =
  geometry_coordinates :: "position list"
  properties_units :: "string option"
  properties_length :: "real option"

text \<open>
  What the module binds at load time and never assigns again: the network
  \<open>marnet\<close> (its \<open>features\<close> array; the data file is not part of the sources), the
  route finder built from it, and the imported library routines.
  \<^item> \<open>pointToLineDistance env p f\<close> is \<open>pointToLineDistance(p, f, {units: 'kilometers'})\<close>;
  \<^item> \<open>rhumbDistance env p c\<close> is \<open>rhumbDistance(p, c)\<close>;
  \<^item> \<open>findPath env a b\<close> is \<open>routefinder.findPath(a, b)\<close>: \<open>None\<close> for \<open>null\<close>, otherwise
    the \<open>path\<close> of the object returned;
  \<^item> \<open>turf_length env cs u\<close> is \<open>length(lineString, {units: u})\<close> on a line with
    coordinates \<open>cs\<close>.
\<close>

record env =
  marnet :: "feature list"
  pointToLineDistance :: "position \<Rightarrow> feature \<Rightarrow> real"
  rhumbDistance :: "position \<Rightarrow> position \<Rightarrow> real"
  findPath :: "position \<Rightarrow> position \<Rightarrow> position list option"
  turf_length :: "position list \<Rightarrow> string \<Rightarrow> error + real"

section \<open>Library helpers the source calls\<close>

text \<open>
  The iterators of \<open>@turf/meta\<close> and the constructors of \<open>@turf/helpers\<close> (version 6 of
  both) are imported by the source and are not part of the repository. They are written
  out here as far as the source depends on them: the order of iteration, and the
  arguments the constructors reject. The numeric routines and the route finder stay
  parameters in \<open>env\<close>.

  \<open>turfMeta.featureEach(collection, callback)\<close> calls \<open>callback(feature, index)\<close> on
  every feature in array order; the callback of the source updates two variables of the
  enclosing function, here the state \<open>s\<close>.
\<close>

fun featureEach :: "'a list \<Rightarrow> ('a \<Rightarrow> nat \<Rightarrow> 's \<Rightarrow> 's) \<Rightarrow> nat \<Rightarrow> 's \<Rightarrow> 's" where
  "featureEach [] callback ftIndex s = s"
| "featureEach (ft # fts) callback ftIndex s =
     featureEach fts callback (Suc ftIndex) (callback ft ftIndex s)"

text \<open>\<open>turfMeta.coordEach(feature, callback)\<close> calls \<open>callback(coord)\<close> on every coordinate in order.\<close>

fun coordEach :: "'a list \<Rightarrow> ('a \<Rightarrow> 's \<Rightarrow> 's) \<Rightarrow> 's \<Rightarrow> 's" where
  "coordEach [] callback s = s"
| "coordEach (c # cs) callback s = coordEach cs callback (callback c s)"

text \<open>\<open>turfHelpers.point(coordinates)\<close> throws when \<open>coordinates\<close> is \<open>null\<close>.\<close>

definition turf_point :: "position option \<Rightarrow> error + position" where
  "turf_point coordinates =
     (case coordinates of None \<Rightarrow> Inl Error_coordinates_required | Some c \<Rightarrow> Inr c)"

text \<open>
  \<open>turfHelpers.lineString(coordinates)\<close> throws when there are fewer than two positions,
  and otherwise returns a Feature with empty \<open>properties\<close>.
\<close>

definition turf_lineString :: "position list \<Rightarrow> error + lineString" where
  "turf_lineString coordinates =
     (if length coordinates < 2 then Inl Error_two_or_more_positions
      else Inr \<lparr>geometry_coordinates = coordinates,
                properties_units = None, properties_length = None\<rparr>)"

section \<open>snapToNetwork\<close>

text \<open>
  The callback of the first scan: \<open>if (dist < distance) { distance = dist;
  nearestLineIndex = ftIndex; }\<close>. The state is \<open>(nearestLineIndex, distance)\<close>.
\<close>

definition nearestLine_callback ::
  "env \<Rightarrow> position \<Rightarrow> feature \<Rightarrow> nat \<Rightarrow> nat \<times> real \<Rightarrow> nat \<times> real" where
  "nearestLine_callback env point ft ftIndex s =
     (let dist = pointToLineDistance env point ft
      in if dist < snd s then (ftIndex, dist) else s)"

text \<open>The first scan, from \<open>nearestLineIndex = 0, distance = 30000\<close>.\<close>

definition nearestLine :: "env \<Rightarrow> position \<Rightarrow> nat \<times> real" where
  "nearestLine env point =
     featureEach (marnet env) (nearestLine_callback env point) 0 (0, 30000)"

text \<open>
  \<open>!nearestVertexDist\<close> is true when the variable is \<open>null\<close> and also when it is the
  number \<open>0\<close>.
\<close>

definition js_not :: "real option \<Rightarrow> bool" where
  "js_not v = (case v of None \<Rightarrow> True | Some x \<Rightarrow> x = 0)"

text \<open>
  The callback of the second scan; the state is \<open>(nearestVertexDist, nearestCoord)\<close>,
  both \<open>null\<close> at the start. In the \<open>else if\<close> branch \<open>nearestVertexDist\<close> is a number
  other than \<open>0\<close>.
\<close>

definition nearestVertex_callback ::
  "env \<Rightarrow> position \<Rightarrow> position \<Rightarrow> real option \<times> position option
     \<Rightarrow> real option \<times> position option" where
  "nearestVertex_callback env point currentCoord s =
     (let distToVertex = rhumbDistance env point currentCoord
      in if js_not (fst s) then (Some distToVertex, Some currentCoord)
         else (case fst s of
                 None \<Rightarrow> s
               | Some nearestVertexDist \<Rightarrow>
                   if distToVertex < nearestVertexDist
                   then (Some distToVertex, Some currentCoord) else s))"

definition nearestVertex :: "env \<Rightarrow> position \<Rightarrow> feature \<Rightarrow> real option \<times> position option" where
  "nearestVertex env point ft = coordEach ft (nearestVertex_callback env point) (None, None)"

text \<open>
  \<open>snapToNetwork(point)\<close>: the first scan, \<open>console.log(nearestLineIndex)\<close>, then the
  second scan over \<open>marnet.features[nearestLineIndex]\<close> (\<open>undefined\<close> when the index is
  out of range, on which \<open>coordEach\<close> throws), then \<open>turfHelpers.point(nearestCoord)\<close>.
\<close>

definition snapToNetwork :: "env \<Rightarrow> position \<Rightarrow> console \<Rightarrow> (error + position) \<times> console" where
  "snapToNetwork env point con =
     (let nearestLineIndex = fst (nearestLine env point);
          con' = con @ [LogNumber nearestLineIndex]
      in if nearestLineIndex < length (marnet env)
         then (turf_point (snd (nearestVertex env point (marnet env ! nearestLineIndex))), con')
         else (Inl TypeError_undefined, con'))"

section \<open>searoute\<close>

text \<open>
  \<open>searoute(origin, destination, units = 'nm')\<close>. The result is \<open>Inl\<close> of the exception
  thrown (the \<open>catch\<close> block rethrows it unchanged), \<open>Inr None\<close> for \<open>null\<close>, and
  \<open>Inr (Some l)\<close> for the line string returned. An omitted third argument is \<open>None\<close>.
\<close>

definition searoute ::
  "env \<Rightarrow> position \<Rightarrow> position \<Rightarrow> string option \<Rightarrow> console
     \<Rightarrow> (error + lineString option) \<times> console" where
  "searoute env origin destination units_arg con =
     (let units = (case units_arg of None \<Rightarrow> ''nm'' | Some u \<Rightarrow> u)
      in case snapToNetwork env origin con of
           (Inl err, con1) \<Rightarrow> (Inl err, con1)
         | (Inr snappedOrigin, con1) \<Rightarrow>
       (case snapToNetwork env destination con1 of
           (Inl err, con2) \<Rightarrow> (Inl err, con2)
         | (Inr snappedDestination, con2) \<Rightarrow>
       (case findPath env snappedOrigin snappedDestination of
           None \<Rightarrow> (Inr None, con2 @ [LogString ''No route found''])
         | Some path \<Rightarrow>
       (case turf_lineString path of
           Inl err \<Rightarrow> (Inl err, con2)
         | Inr ls \<Rightarrow>
       (let ls1 = ls\<lparr>properties_units := Some units\<rparr>
        in case (if units = ''nm''
                 then (case turf_length env (geometry_coordinates ls1) ''miles'' of
                         Inl err \<Rightarrow> Inl err
                       | Inr miles \<Rightarrow> Inr (miles * 1.15078))
                 else turf_length env (geometry_coordinates ls1) units) of
             Inl err \<Rightarrow> (Inl err, con2)
           | Inr len \<Rightarrow> (Inr (Some (ls1\<lparr>properties_length := Some len\<rparr>)), con2))))))"

section \<open>The network as a store\<close>

text \<open>
  The coordinate arrays of \<open>marnet\<close> are shared objects. \<open>coordEach\<close> hands each array
  itself to the callback; \<open>rhumbDistance(from, to)\<close> of \<open>@turf/rhumb-distance\<close> (version
  6) compensates a crossing of the 180th meridian by adding \<open>-360\<close> or \<open>360\<close> to the first
  element of the array it was given as \<open>to\<close>, before it measures; and
  \<open>turfHelpers.point\<close> keeps the array it is given. What one call leaves behind for the
  next is therefore modelled over a store: the contents of the arrays of
  \<open>marnet.features\<close>, together with the console. The route finder was built when the
  module was loaded and stays the function \<open>findPath env\<close>.
\<close>

type_synonym store = "feature list \<times> console"

text \<open>A coordinate array of the network: the index of its feature and its index there.\<close>

type_synonym coord_ref = "nat \<times> nat"

definition deref :: "store \<Rightarrow> coord_ref \<Rightarrow> position" where
  "deref st r = fst st ! fst r ! snd r"

text \<open>The contents of the array \<open>to\<close> after \<open>rhumbDistance(from, to)\<close>.\<close>

definition rhumb_compensate :: "position \<Rightarrow> position \<Rightarrow> position" where
  "rhumb_compensate origin destination =
     (fst destination +
        (if fst destination - fst origin > 180 then - 360
         else if fst origin - fst destination > 180 then 360 else 0),
      snd destination)"

text \<open>
  The second scan over the arrays of one feature. \<open>rhumbDistance env point currentCoord\<close>
  is the number the routine returns for the array as it is when the routine is called;
  the array is left compensated. \<open>nearestCoord\<close> is the array itself, here its index.
  The result is the final \<open>(nearestVertexDist, nearestCoord)\<close> and the feature's arrays
  after the scan.
\<close>

fun nearestVertex_store ::
  "env \<Rightarrow> position \<Rightarrow> position list \<Rightarrow> nat \<Rightarrow> real option \<times> nat option
     \<Rightarrow> (real option \<times> nat option) \<times> position list" where
  "nearestVertex_store env point [] coordIndex s = (s, [])"
| "nearestVertex_store env point (currentCoord # cs) coordIndex s =
     (let distToVertex = rhumbDistance env point currentCoord;
          s' = (if js_not (fst s) then (Some distToVertex, Some coordIndex)
                else (case fst s of
                        None \<Rightarrow> s
                      | Some nearestVertexDist \<Rightarrow>
                          if distToVertex < nearestVertexDist
                          then (Some distToVertex, Some coordIndex) else s));
          r = nearestVertex_store env point cs (Suc coordIndex) s'
      in (fst r, rhumb_compensate point currentCoord # snd r))"

text \<open>
  \<open>snapToNetwork(point)\<close> over the store. The first scan reads the arrays as they are;
  the point returned holds the array \<open>nearestCoord\<close>, not a copy of it.
\<close>

definition snapToNetwork_store :: "env \<Rightarrow> position \<Rightarrow> store \<Rightarrow> (error + coord_ref) \<times> store" where
  "snapToNetwork_store env point st =
     (let features = fst st;
          nearestLineIndex = fst (nearestLine (env\<lparr>marnet := features\<rparr>) point);
          con' = snd st @ [LogNumber nearestLineIndex]
      in if nearestLineIndex < length features
         then (let r = nearestVertex_store env point (features ! nearestLineIndex) 0 (None, None)
               in ((case snd (fst r) of
                      None \<Rightarrow> Inl Error_coordinates_required
                    | Some coordIndex \<Rightarrow> Inr (nearestLineIndex, coordIndex)),
                   (features[nearestLineIndex := snd r], con')))
         else (Inl TypeError_undefined, (features, con')))"

text \<open>
  \<open>searoute\<close> over the store: the route finder receives the two snapped points as their
  arrays are after both calls of \<open>snapToNetwork\<close>.
\<close>

definition searoute_store ::
  "env \<Rightarrow> position \<Rightarrow> position \<Rightarrow> string option \<Rightarrow> store
     \<Rightarrow> (error + lineString option) \<times> store" where
  "searoute_store env origin destination units_arg st =
     (let units = (case units_arg of None \<Rightarrow> ''nm'' | Some u \<Rightarrow> u)
      in case snapToNetwork_store env origin st of
           (Inl err, st1) \<Rightarrow> (Inl err, st1)
         | (Inr snappedOrigin, st1) \<Rightarrow>
       (case snapToNetwork_store env destination st1 of
           (Inl err, st2) \<Rightarrow> (Inl err, st2)
         | (Inr snappedDestination, st2) \<Rightarrow>
       (case findPath env (deref st2 snappedOrigin) (deref st2 snappedDestination) of
           None \<Rightarrow> (Inr None, (fst st2, snd st2 @ [LogString ''No route found'']))
         | Some path \<Rightarrow>
       (case turf_lineString path of
           Inl err \<Rightarrow> (Inl err, st2)
         | Inr ls \<Rightarrow>
       (let ls1 = ls\<lparr>properties_units := Some units\<rparr>
        in case (if units = ''nm''
                 then (case turf_length env (geometry_coordinates ls1) ''miles'' of
                         Inl err \<Rightarrow> Inl err
                       | Inr miles \<Rightarrow> Inr (miles * 1.15078))
                 else turf_length env (geometry_coordinates ls1) units) of
             Inl err \<Rightarrow> (Inl err, st2)
           | Inr len \<Rightarrow> (Inr (Some (ls1\<lparr>properties_length := Some len\<rparr>)), st2))))))"

section \<open>Example networks\<close>

text \<open>
  Small inputs on which the pipeline is run below. The network data and the library
  routines are not part of the sources, so the examples use stand-ins: a network of two
  lines, one on the equator and one on the parallel of latitude 5, and distances counted
  in degrees of longitude plus degrees of latitude.
\<close>

definition degrees_apart :: "position \<Rightarrow> position \<Rightarrow> real" where
  "degrees_apart p q = \<bar>fst p - fst q\<bar> + \<bar>snd p - snd q\<bar>"

text \<open>
  The distance to the nearest vertex of a line: it stands for \<open>pointToLineDistance\<close> at
  points whose nearest point on the line is one of its vertices.
\<close>

fun nearest_vertex_degrees :: "position \<Rightarrow> feature \<Rightarrow> real" where
  "nearest_vertex_degrees p [] = 30000"
| "nearest_vertex_degrees p [c] = degrees_apart p c"
| "nearest_vertex_degrees p (c # cs) = min (degrees_apart p c) (nearest_vertex_degrees p cs)"

fun path_degrees :: "position list \<Rightarrow> real" where
  "path_degrees (a # b # cs) = degrees_apart a b + path_degrees (b # cs)"
| "path_degrees cs = 0"

text \<open>A length routine that knows three units and throws on any other.\<close>

definition ex_length :: "position list \<Rightarrow> string \<Rightarrow> error + real" where
  "ex_length cs u =
     (if u = ''miles'' then Inr (69 * path_degrees cs)
      else if u = ''kilometers'' then Inr (111 * path_degrees cs)
      else if u = ''degrees'' then Inr (path_degrees cs)
      else Inl (Error_thrown ''units is invalid''))"

text \<open>
  A route finder for which two vertices are connected exactly when they have the same
  latitude, and whose path from a vertex to itself is that single vertex.
\<close>

definition ex_findPath :: "position \<Rightarrow> position \<Rightarrow> position list option" where
  "ex_findPath a b =
     (if a = b then Some [a] else if snd a = snd b then Some [a, b] else None)"

definition ex_env :: env where
  "ex_env = \<lparr>marnet = [[(0, 0), (1, 0), (2, 0)], [(5, 5), (6, 5)]],
             pointToLineDistance = nearest_vertex_degrees,
             rhumbDistance = degrees_apart,
             findPath = ex_findPath,
             turf_length = ex_length\<rparr>"

text \<open>
  Two lines that meet at \<open>(1, 0)\<close>: a vertex of the second line, and a point in the
  middle of the first line's only segment, so that its distance to both lines is \<open>0\<close>.
\<close>

definition ex_crossing :: env where
  "ex_crossing = ex_env\<lparr>marnet := [[(0, 0), (2, 0)], [(1, 0), (1, 5)]],
                         pointToLineDistance :=
                           (\<lambda>p ft. if p = (1, 0) then 0 else nearest_vertex_degrees p ft)\<rparr>"

text \<open>
  A network across the 180th meridian. The stand-in for \<open>pointToLineDistance\<close> projects
  the point on each segment as the library does (in the plane of longitude and latitude)
  and measures from the projection in degrees; the stand-in for \<open>rhumbDistance\<close>
  measures, as the library does, to the compensated position.
\<close>

definition distanceToSegment_degrees :: "position \<Rightarrow> position \<Rightarrow> position \<Rightarrow> real" where
  "distanceToSegment_degrees p a b =
     (let v = (fst b - fst a, snd b - snd a);
          w = (fst p - fst a, snd p - snd a);
          c1 = fst w * fst v + snd w * snd v;
          c2 = fst v * fst v + snd v * snd v
      in if c1 \<le> 0 then degrees_apart p a
         else if c2 \<le> c1 then degrees_apart p b
         else degrees_apart p (fst a + c1 / c2 * fst v, snd a + c1 / c2 * snd v))"

fun line_degrees :: "position \<Rightarrow> feature \<Rightarrow> real" where
  "line_degrees p [a, b] = distanceToSegment_degrees p a b"
| "line_degrees p (a # b # cs) = min (distanceToSegment_degrees p a b) (line_degrees p (b # cs))"
| "line_degrees p cs = nearest_vertex_degrees p cs"

definition ex_dateline :: env where
  "ex_dateline = \<lparr>marnet = [[(175, 0), (- 175, 0)], [(170, 4), (171, 4)]],
                  pointToLineDistance = line_degrees,
                  rhumbDistance = (\<lambda>p c. degrees_apart p (rhumb_compensate p c)),
                  findPath = ex_findPath,
                  turf_length = ex_length\<rparr>"

section \<open>Facts about the scans\<close>

lemma snapToNetwork_console:
  "fst (snapToNetwork env point con) = fst (snapToNetwork env point con')"
  by (simp add: snapToNetwork_def Let_def)

lemma searoute_result:
  "fst (searoute env origin destination units_arg con) =
     (let units = (case units_arg of None \<Rightarrow> ''nm'' | Some u \<Rightarrow> u)
      in case fst (snapToNetwork env origin con) of
        Inl err \<Rightarrow> Inl err
      | Inr snappedOrigin \<Rightarrow>
     (case fst (snapToNetwork env destination con) of
        Inl err \<Rightarrow> Inl err
      | Inr snappedDestination \<Rightarrow>
     (case findPath env snappedOrigin snappedDestination of
        None \<Rightarrow> Inr None
      | Some path \<Rightarrow>
     (if length path < 2 then Inl Error_two_or_more_positions
      else (case (if units = ''nm''
                  then (case turf_length env path ''miles'' of
                          Inl err \<Rightarrow> Inl err
                        | Inr miles \<Rightarrow> Inr (miles * 1.15078))
                  else turf_length env path units) of
              Inl err \<Rightarrow> Inl err
            | Inr len \<Rightarrow> Inr (Some \<lparr>geometry_coordinates = path,
                         properties_units = Some units,
                         properties_length = Some len\<rparr>))))))"
proof -
  have c: "\<And>c. fst (snapToNetwork env destination c) = fst (snapToNetwork env destination con)"
    by (rule snapToNetwork_console)
  show ?thesis
    using c [of "snd (snapToNetwork env origin con)"]
    by (auto simp: searoute_def turf_lineString_def Let_def
        split: prod.splits sum.splits option.splits)
qed

lemma nearestLine_callback_apply:
  "nearestLine_callback env p f i (k, x) =
     (if pointToLineDistance env p f < x then (i, pointToLineDistance env p f) else (k, x))"
  by (simp add: nearestLine_callback_def)

lemma featureEach_nearestLine:
  "featureEach fs (nearestLine_callback env p) i (k, x) = (k', x') \<Longrightarrow>
     (k' = k \<and> x' = x \<and> (\<forall>f\<in>set fs. \<not> pointToLineDistance env p f < x))
   \<or> (\<exists>j<length fs. k' = i + j \<and> x' = pointToLineDistance env p (fs ! j) \<and> x' < x
         \<and> (\<forall>m<length fs. x' \<le> pointToLineDistance env p (fs ! m))
         \<and> (\<forall>m<j. x' < pointToLineDistance env p (fs ! m)))"
proof (induction fs arbitrary: i k x)
  case Nil
  then show ?case by simp
next
  case (Cons f fs)
  show ?case
  proof (cases "pointToLineDistance env p f < x")
    case True
    have r: "featureEach fs (nearestLine_callback env p) (Suc i) (i, pointToLineDistance env p f) = (k', x')"
      using Cons.prems True by (simp only: featureEach.simps nearestLine_callback_apply if_True)
    from Cons.IH [OF r] show ?thesis
    proof (elim disjE conjE exE)
      assume a: "k' = i" "x' = pointToLineDistance env p f"
        "\<forall>g\<in>set fs. \<not> pointToLineDistance env p g < pointToLineDistance env p f"
      have "0 < length (f # fs) \<and> k' = i + 0 \<and> x' = pointToLineDistance env p ((f # fs) ! 0) \<and> x' < x
         \<and> (\<forall>m<length (f # fs). x' \<le> pointToLineDistance env p ((f # fs) ! m))
         \<and> (\<forall>m<0. x' < pointToLineDistance env p ((f # fs) ! m))"
        using a True by (auto simp: nth_Cons' not_less)
      then show ?thesis by blast
    next
      fix j
      assume b: "j < length fs" "k' = Suc i + j" "x' = pointToLineDistance env p (fs ! j)"
        "x' < pointToLineDistance env p f"
        "\<forall>m<length fs. x' \<le> pointToLineDistance env p (fs ! m)"
        "\<forall>m<j. x' < pointToLineDistance env p (fs ! m)"
      have "Suc j < length (f # fs) \<and> k' = i + Suc j
         \<and> x' = pointToLineDistance env p ((f # fs) ! Suc j) \<and> x' < x
         \<and> (\<forall>m<length (f # fs). x' \<le> pointToLineDistance env p ((f # fs) ! m))
         \<and> (\<forall>m<Suc j. x' < pointToLineDistance env p ((f # fs) ! m))"
        using b True by (auto simp: nth_Cons' less_Suc_eq_0_disj)
      then show ?thesis by blast
    qed
  next
    case False
    have r: "featureEach fs (nearestLine_callback env p) (Suc i) (k, x) = (k', x')"
      using Cons.prems False by (simp only: featureEach.simps nearestLine_callback_apply if_False)
    from Cons.IH [OF r] show ?thesis
    proof (elim disjE conjE exE)
      assume a: "k' = k" "x' = x"
        "\<forall>g\<in>set fs. \<not> pointToLineDistance env p g < x"
      then show ?thesis using False by simp
    next
      fix j
      assume b: "j < length fs" "k' = Suc i + j" "x' = pointToLineDistance env p (fs ! j)"
        "x' < x"
        "\<forall>m<length fs. x' \<le> pointToLineDistance env p (fs ! m)"
        "\<forall>m<j. x' < pointToLineDistance env p (fs ! m)"
      have "Suc j < length (f # fs) \<and> k' = i + Suc j
         \<and> x' = pointToLineDistance env p ((f # fs) ! Suc j) \<and> x' < x
         \<and> (\<forall>m<length (f # fs). x' \<le> pointToLineDistance env p ((f # fs) ! m))
         \<and> (\<forall>m<Suc j. x' < pointToLineDistance env p ((f # fs) ! m))"
        using b False by (auto simp: nth_Cons' less_Suc_eq_0_disj)
      then show ?thesis by blast
    qed
  qed
qed

lemma nearestVertex_callback_apply:
  "nearestVertex_callback env p c (nd, nc) =
     (case nd of
        None \<Rightarrow> (Some (rhumbDistance env p c), Some c)
      | Some x \<Rightarrow> if x = 0 \<or> rhumbDistance env p c < x
                  then (Some (rhumbDistance env p c), Some c) else (nd, nc))"
  by (auto simp: nearestVertex_callback_def js_not_def Let_def split: option.splits)

lemma coordEach_append:
  "coordEach (xs @ ys) callback s = coordEach ys callback (coordEach xs callback s)"
  by (induction xs arbitrary: s) simp_all

lemma coordEach_nearestVertex_Some:
  "\<exists>c\<in>insert c0 (set cs).
     coordEach cs (nearestVertex_callback env p) (Some (rhumbDistance env p c0), Some c0)
       = (Some (rhumbDistance env p c), Some c)"
proof (induction cs arbitrary: c0)
  case Nil
  show ?case by simp
next
  case (Cons a cs)
  have "nearestVertex_callback env p a (Some (rhumbDistance env p c0), Some c0)
          = (Some (rhumbDistance env p a), Some a)
      \<or> nearestVertex_callback env p a (Some (rhumbDistance env p c0), Some c0)
          = (Some (rhumbDistance env p c0), Some c0)"
    by (simp add: nearestVertex_callback_apply)
  then show ?case
  proof
    assume h: "nearestVertex_callback env p a (Some (rhumbDistance env p c0), Some c0)
          = (Some (rhumbDistance env p a), Some a)"
    from Cons.IH [of a] obtain c where "c \<in> insert a (set cs)"
      "coordEach cs (nearestVertex_callback env p) (Some (rhumbDistance env p a), Some a)
       = (Some (rhumbDistance env p c), Some c)" by blast
    then show ?thesis using h by (simp only: coordEach.simps) auto
  next
    assume h: "nearestVertex_callback env p a (Some (rhumbDistance env p c0), Some c0)
          = (Some (rhumbDistance env p c0), Some c0)"
    from Cons.IH [of c0] obtain c where "c \<in> insert c0 (set cs)"
      "coordEach cs (nearestVertex_callback env p) (Some (rhumbDistance env p c0), Some c0)
       = (Some (rhumbDistance env p c), Some c)" by blast
    then show ?thesis using h by (simp only: coordEach.simps) auto
  qed
qed

lemma nearestVertex_Nil: "nearestVertex env p [] = (None, None)"
  by (simp add: nearestVertex_def)

lemma nearestVertex_Cons:
  "nearestVertex env p (c # cs) =
     coordEach cs (nearestVertex_callback env p) (Some (rhumbDistance env p c), Some c)"
  by (simp only: nearestVertex_def coordEach.simps nearestVertex_callback_apply option.case)

lemma nearestVertex_in_feature:
  "ft \<noteq> [] \<Longrightarrow> \<exists>c\<in>set ft. nearestVertex env p ft = (Some (rhumbDistance env p c), Some c)"
proof (cases ft)
  case Nil
  then show "ft \<noteq> [] \<Longrightarrow> ?thesis" by simp
next
  case (Cons c cs)
  from coordEach_nearestVertex_Some [of c cs env p] show ?thesis
    by (simp only: Cons nearestVertex_Cons list.set)
qed

lemma nearestVertex_last_zero:
  assumes ne: "ft \<noteq> []"
    and z: "rhumbDistance env p (last ft) = 0"
    and nn: "\<forall>c\<in>set ft. 0 \<le> rhumbDistance env p c"
  shows "nearestVertex env p ft = (Some 0, Some (last ft))"
proof -
  have split: "ft = butlast ft @ [last ft]" using ne by simp
  have "nearestVertex env p ft =
          nearestVertex_callback env p (last ft) (nearestVertex env p (butlast ft))"
    by (subst split) (simp only: nearestVertex_def coordEach_append coordEach.simps)
  moreover have "nearestVertex_callback env p (last ft) (nearestVertex env p (butlast ft))
          = (Some 0, Some (last ft))"
  proof (cases "butlast ft = []")
    case True
    then show ?thesis by (simp add: nearestVertex_Nil nearestVertex_callback_apply z)
  next
    case False
    from nearestVertex_in_feature [OF False] obtain c where
      c: "c \<in> set (butlast ft)"
         "nearestVertex env p (butlast ft) = (Some (rhumbDistance env p c), Some c)" by blast
    from c(1) have "c \<in> set ft" by (rule in_set_butlastD)
    with nn have "0 \<le> rhumbDistance env p c" by blast
    then show ?thesis by (auto simp: c(2) nearestVertex_callback_apply z)
  qed
  ultimately show ?thesis by simp
qed

lemma coordEach_nearestVertex_min:
  assumes "x \<noteq> 0" and "\<forall>c\<in>set cs. rhumbDistance env p c \<noteq> 0"
    and "coordEach cs (nearestVertex_callback env p) (Some x, Some c0) = (nd, nc)"
  shows "(nd = Some x \<and> nc = Some c0 \<and> (\<forall>c\<in>set cs. \<not> rhumbDistance env p c < x))
   \<or> (\<exists>j<length cs. nd = Some (rhumbDistance env p (cs ! j)) \<and> nc = Some (cs ! j)
         \<and> rhumbDistance env p (cs ! j) < x
         \<and> (\<forall>m<length cs. rhumbDistance env p (cs ! j) \<le> rhumbDistance env p (cs ! m))
         \<and> (\<forall>m<j. rhumbDistance env p (cs ! j) < rhumbDistance env p (cs ! m)))"
  using assms
proof (induction cs arbitrary: x c0)
  case Nil
  then show ?case by simp
next
  case (Cons a cs)
  let ?d = "rhumbDistance env p"
  from Cons.prems(2) have nz: "\<forall>c\<in>set cs. ?d c \<noteq> 0" and anz: "?d a \<noteq> 0" by simp_all
  show ?case
  proof (cases "?d a < x")
    case True
    have step: "nearestVertex_callback env p a (Some x, Some c0) = (Some (?d a), Some a)"
      using True by (simp add: nearestVertex_callback_apply)
    have r: "coordEach cs (nearestVertex_callback env p) (Some (?d a), Some a) = (nd, nc)"
      using Cons.prems(3) by (simp only: coordEach.simps step)
    from Cons.IH [OF anz nz r] show ?thesis
    proof (elim disjE conjE exE)
      assume a: "nd = Some (?d a)" "nc = Some a" "\<forall>c\<in>set cs. \<not> ?d c < ?d a"
      have "0 < length (a # cs) \<and> nd = Some (?d ((a # cs) ! 0)) \<and> nc = Some ((a # cs) ! 0)
         \<and> ?d ((a # cs) ! 0) < x
         \<and> (\<forall>m<length (a # cs). ?d ((a # cs) ! 0) \<le> ?d ((a # cs) ! m))
         \<and> (\<forall>m<0. ?d ((a # cs) ! 0) < ?d ((a # cs) ! m))"
        using a True by (auto simp: nth_Cons' not_less)
      then show ?thesis by blast
    next
      fix j
      assume b: "j < length cs" "nd = Some (?d (cs ! j))" "nc = Some (cs ! j)"
        "?d (cs ! j) < ?d a"
        "\<forall>m<length cs. ?d (cs ! j) \<le> ?d (cs ! m)"
        "\<forall>m<j. ?d (cs ! j) < ?d (cs ! m)"
      have "Suc j < length (a # cs) \<and> nd = Some (?d ((a # cs) ! Suc j))
         \<and> nc = Some ((a # cs) ! Suc j) \<and> ?d ((a # cs) ! Suc j) < x
         \<and> (\<forall>m<length (a # cs). ?d ((a # cs) ! Suc j) \<le> ?d ((a # cs) ! m))
         \<and> (\<forall>m<Suc j. ?d ((a # cs) ! Suc j) < ?d ((a # cs) ! m))"
        using b True by (auto simp: nth_Cons' less_Suc_eq_0_disj)
      then show ?thesis by blast
    qed
  next
    case False
    have step: "nearestVertex_callback env p a (Some x, Some c0) = (Some x, Some c0)"
      using False Cons.prems(1) by (simp add: nearestVertex_callback_apply)
    have r: "coordEach cs (nearestVertex_callback env p) (Some x, Some c0) = (nd, nc)"
      using Cons.prems(3) by (simp only: coordEach.simps step)
    from Cons.IH [OF Cons.prems(1) nz r] show ?thesis
    proof (elim disjE conjE exE)
      assume a: "nd = Some x" "nc = Some c0" "\<forall>c\<in>set cs. \<not> ?d c < x"
      then show ?thesis using False by simp
    next
      fix j
      assume b: "j < length cs" "nd = Some (?d (cs ! j))" "nc = Some (cs ! j)"
        "?d (cs ! j) < x"
        "\<forall>m<length cs. ?d (cs ! j) \<le> ?d (cs ! m)"
        "\<forall>m<j. ?d (cs ! j) < ?d (cs ! m)"
      have "Suc j < length (a # cs) \<and> nd = Some (?d ((a # cs) ! Suc j))
         \<and> nc = Some ((a # cs) ! Suc j) \<and> ?d ((a # cs) ! Suc j) < x
         \<and> (\<forall>m<length (a # cs). ?d ((a # cs) ! Suc j) \<le> ?d ((a # cs) ! m))
         \<and> (\<forall>m<Suc j. ?d ((a # cs) ! Suc j) < ?d ((a # cs) ! m))"
        using b False by (auto simp: nth_Cons' less_Suc_eq_0_disj)
      then show ?thesis by blast
    qed
  qed
qed

lemma nearestVertex_first_minimum:
  assumes ne: "ft \<noteq> []" and nz: "\<forall>c\<in>set ft. rhumbDistance env p c \<noteq> 0"
  shows "\<exists>j<length ft. nearestVertex env p ft = (Some (rhumbDistance env p (ft ! j)), Some (ft ! j))
         \<and> (\<forall>m<length ft. rhumbDistance env p (ft ! j) \<le> rhumbDistance env p (ft ! m))
         \<and> (\<forall>m<j. rhumbDistance env p (ft ! j) < rhumbDistance env p (ft ! m))"
proof -
  let ?d = "rhumbDistance env p"
  from ne obtain a cs where ft: "ft = a # cs" by (cases ft) auto
  from nz ft have anz: "?d a \<noteq> 0" and csnz: "\<forall>c\<in>set cs. ?d c \<noteq> 0" by simp_all
  obtain nd nc where r: "coordEach cs (nearestVertex_callback env p) (Some (?d a), Some a) = (nd, nc)"
    by (cases "coordEach cs (nearestVertex_callback env p) (Some (?d a), Some a)") blast
  have nv: "nearestVertex env p ft = (nd, nc)" by (simp only: ft nearestVertex_Cons r)
  from coordEach_nearestVertex_min [OF anz csnz r] show ?thesis
  proof (elim disjE conjE exE)
    assume a: "nd = Some (?d a)" "nc = Some a" "\<forall>c\<in>set cs. \<not> ?d c < ?d a"
    have "0 < length ft \<and> nearestVertex env p ft = (Some (?d (ft ! 0)), Some (ft ! 0))
         \<and> (\<forall>m<length ft. ?d (ft ! 0) \<le> ?d (ft ! m))
         \<and> (\<forall>m<0. ?d (ft ! 0) < ?d (ft ! m))"
      using a nv by (auto simp: ft nth_Cons' not_less)
    then show ?thesis by blast
  next
    fix j
    assume b: "j < length cs" "nd = Some (?d (cs ! j))" "nc = Some (cs ! j)"
        "?d (cs ! j) < ?d a"
        "\<forall>m<length cs. ?d (cs ! j) \<le> ?d (cs ! m)"
        "\<forall>m<j. ?d (cs ! j) < ?d (cs ! m)"
    have "Suc j < length ft \<and> nearestVertex env p ft = (Some (?d (ft ! Suc j)), Some (ft ! Suc j))
         \<and> (\<forall>m<length ft. ?d (ft ! Suc j) \<le> ?d (ft ! m))
         \<and> (\<forall>m<Suc j. ?d (ft ! Suc j) < ?d (ft ! m))"
      using b nv by (auto simp: ft nth_Cons' less_Suc_eq_0_disj)
    then show ?thesis by blast
  qed
qed

lemma nearestLine_cases:
  "(nearestLine env p = (0, 30000)
      \<and> (\<forall>f\<in>set (marnet env). \<not> pointToLineDistance env p f < 30000))
   \<or> (\<exists>j<length (marnet env).
         nearestLine env p = (j, pointToLineDistance env p (marnet env ! j))
         \<and> pointToLineDistance env p (marnet env ! j) < 30000
         \<and> (\<forall>m<length (marnet env).
               pointToLineDistance env p (marnet env ! j) \<le> pointToLineDistance env p (marnet env ! m))
         \<and> (\<forall>m<j. pointToLineDistance env p (marnet env ! j) < pointToLineDistance env p (marnet env ! m)))"
proof -
  obtain k x where r: "featureEach (marnet env) (nearestLine_callback env p) 0 (0, 30000) = (k, x)"
    by (cases "featureEach (marnet env) (nearestLine_callback env p) 0 (0, 30000)") blast
  from featureEach_nearestLine [OF r] show ?thesis
    by (simp only: nearestLine_def r add_0) blast
qed

lemma snapToNetwork_result:
  "fst (snapToNetwork env p con) =
     (if fst (nearestLine env p) < length (marnet env)
      then turf_point (snd (nearestVertex env p (marnet env ! fst (nearestLine env p))))
      else Inl TypeError_undefined)"
  by (simp add: snapToNetwork_def Let_def)

lemma nearestLine_index_bound:
  "marnet env \<noteq> [] \<Longrightarrow> fst (nearestLine env p) < length (marnet env)"
  using nearestLine_cases [of env p] by auto

lemma searoute_single_vertex_path:
  assumes "fst (snapToNetwork env origin con) = Inr so"
    and "fst (snapToNetwork env destination con) = Inr sd"
    and "findPath env so sd = Some [v]"
  shows "fst (searoute env origin destination units_arg con) = Inl Error_two_or_more_positions"
  using assms by (simp add: searoute_result)

lemmas ex_defs = ex_env_def ex_crossing_def ex_findPath_def ex_length_def
  degrees_apart_def snapToNetwork_def nearestLine_def nearestVertex_def
  nearestLine_callback_def nearestVertex_callback_def js_not_def turf_point_def
  turf_lineString_def searoute_def Let_def

section \<open>Facts about the store\<close>

text \<open>
  The scan over the store selects the same vertex as the scan over values, and leaves
  every array of the feature compensated. Hence \<open>snapToNetwork\<close> over the store returns
  the vertex \<open>snapToNetwork\<close> computes, compensated, and the two agree, with the store
  unchanged, for a point whose longitude is within 180 of every vertex of the network.
\<close>

lemma nearestVertex_store_features:
  "snd (nearestVertex_store env p cs j s) = map (rhumb_compensate p) cs"
  by (induction cs arbitrary: j s) (simp_all add: Let_def)

lemma nearestVertex_store_index:
  "snd (fst (nearestVertex_store env p cs j s)) = Some k \<Longrightarrow>
     snd s = Some k \<or> (j \<le> k \<and> k < j + length cs)"
proof (induction cs arbitrary: j s)
  case Nil
  then show ?case by simp
next
  case (Cons c cs)
  let ?s' = "(if js_not (fst s) then (Some (rhumbDistance env p c), Some j)
                else (case fst s of
                        None \<Rightarrow> s
                      | Some nearestVertexDist \<Rightarrow>
                          if rhumbDistance env p c < nearestVertexDist
                          then (Some (rhumbDistance env p c), Some j) else s))"
  from Cons.prems have "snd (fst (nearestVertex_store env p cs (Suc j) ?s')) = Some k"
    by (simp add: Let_def)
  from Cons.IH [OF this] have "snd ?s' = Some k \<or> (Suc j \<le> k \<and> k < Suc j + length cs)" .
  moreover have "snd ?s' = snd s \<or> snd ?s' = Some j"
    by (auto split: option.splits)
  ultimately show ?case by auto
qed

lemma nearestVertex_store_abstraction:
  "(fst (fst (nearestVertex_store env p cs (length pre) s)),
    map_option ((!) (pre @ cs)) (snd (fst (nearestVertex_store env p cs (length pre) s))))
   = coordEach cs (nearestVertex_callback env p) (fst s, map_option ((!) (pre @ cs)) (snd s))"
proof (induction cs arbitrary: pre s)
  case Nil
  show ?case by simp
next
  case (Cons c cs)
  let ?s' = "(if js_not (fst s) then (Some (rhumbDistance env p c), Some (length pre))
                else (case fst s of
                        None \<Rightarrow> s
                      | Some nearestVertexDist \<Rightarrow>
                          if rhumbDistance env p c < nearestVertexDist
                          then (Some (rhumbDistance env p c), Some (length pre)) else s))"
  have app: "(pre @ [c]) @ cs = pre @ c # cs" by simp
  have len: "length (pre @ [c]) = Suc (length pre)" by simp
  have step: "nearestVertex_callback env p c (fst s, map_option ((!) (pre @ c # cs)) (snd s))
          = (fst ?s', map_option ((!) (pre @ c # cs)) (snd ?s'))"
    by (auto simp: nearestVertex_callback_def Let_def split: option.splits)
  have unf: "fst (nearestVertex_store env p (c # cs) (length pre) s)
          = fst (nearestVertex_store env p cs (length (pre @ [c])) ?s')"
    by (simp add: Let_def)
  show ?case
    using Cons.IH [of "pre @ [c]" ?s']
    by (simp only: unf app coordEach.simps step)
qed

lemma nearestVertex_store_nearestVertex:
  "(fst (fst (nearestVertex_store env p ft 0 (None, None))),
    map_option ((!) ft) (snd (fst (nearestVertex_store env p ft 0 (None, None)))))
   = nearestVertex env p ft"
  using nearestVertex_store_abstraction [of env p ft "[]" "(None, None)"]
  by (simp add: nearestVertex_def)

lemma nearestVertex_store_bound:
  "snd (fst (nearestVertex_store env p ft 0 (None, None))) = Some k \<Longrightarrow> k < length ft"
  using nearestVertex_store_index [of env p ft 0 "(None, None)" k] by simp

lemma snapToNetwork_store_refines:
  assumes "env' = env\<lparr>marnet := features\<rparr>"
    and "snapToNetwork_store env p (features, con) = (r, st')"
  shows "snd st' = snd (snapToNetwork env' p con)"
    and "fst (nearestLine env' p) < length features \<Longrightarrow>
           fst st' = features[fst (nearestLine env' p) :=
                        map (rhumb_compensate p) (features ! fst (nearestLine env' p))]"
    and "\<not> fst (nearestLine env' p) < length features \<Longrightarrow> fst st' = features"
    and "(case r of Inl err \<Rightarrow> Inl err | Inr ref \<Rightarrow> Inr (deref st' ref))
           = (case fst (snapToNetwork env' p con) of
                Inl err \<Rightarrow> Inl err | Inr v \<Rightarrow> Inr (rhumb_compensate p v))"
proof -
  let ?i = "fst (nearestLine env' p)"
  let ?scan = "nearestVertex_store env p (features ! ?i) 0 (None, None)"
  have cb: "nearestVertex_callback env' p = nearestVertex_callback env p"
    by (rule ext)+ (simp add: assms(1) nearestVertex_callback_def)
  have nv: "nearestVertex env' p = nearestVertex env p"
    by (rule ext) (simp add: nearestVertex_def cb)
  show "snd st' = snd (snapToNetwork env' p con)"
    using assms by (auto simp: snapToNetwork_store_def snapToNetwork_def Let_def split: if_splits)
  show "fst st' = features[?i := map (rhumb_compensate p) (features ! ?i)]" if "?i < length features"
    using assms that
    by (auto simp: snapToNetwork_store_def Let_def nearestVertex_store_features)
  show "fst st' = features" if "\<not> ?i < length features"
    using assms that by (auto simp: snapToNetwork_store_def Let_def)
  show "(case r of Inl err \<Rightarrow> Inl err | Inr ref \<Rightarrow> Inr (deref st' ref))
           = (case fst (snapToNetwork env' p con) of
                Inl err \<Rightarrow> Inl err | Inr v \<Rightarrow> Inr (rhumb_compensate p v))"
  proof (cases "?i < length features")
    case False
    then show ?thesis
      using assms by (auto simp: snapToNetwork_store_def snapToNetwork_def Let_def)
  next
    case True
    have st: "fst st' = features[?i := map (rhumb_compensate p) (features ! ?i)]"
      using assms True by (auto simp: snapToNetwork_store_def Let_def nearestVertex_store_features)
    have r: "r = (case snd (fst ?scan) of None \<Rightarrow> Inl Error_coordinates_required
                  | Some k \<Rightarrow> Inr (?i, k))"
      using assms True by (auto simp: snapToNetwork_store_def Let_def)
    have pure: "fst (snapToNetwork env' p con)
          = turf_point (map_option ((!) (features ! ?i)) (snd (fst ?scan)))"
      using True nearestVertex_store_nearestVertex [of env p "features ! ?i", symmetric]
      by (simp add: snapToNetwork_def Let_def nv) (simp add: assms(1))
    show ?thesis
    proof (cases "snd (fst ?scan)")
      case None
      then show ?thesis by (simp add: r pure turf_point_def)
    next
      case (Some k)
      from nearestVertex_store_bound [OF Some] have k: "k < length (features ! ?i)" .
      show ?thesis
        using True k by (simp add: r pure Some turf_point_def deref_def st)
    qed
  qed
qed

lemma snapToNetwork_in_feature:
  assumes "fst (snapToNetwork env p con) = Inr v"
  shows "fst (nearestLine env p) < length (marnet env)
       \<and> v \<in> set (marnet env ! fst (nearestLine env p))"
proof -
  let ?i = "fst (nearestLine env p)"
  from assms have i: "?i < length (marnet env)"
    by (auto simp: snapToNetwork_result split: if_splits)
  with assms have tp: "turf_point (snd (nearestVertex env p (marnet env ! ?i))) = Inr v"
    by (simp add: snapToNetwork_result)
  have "marnet env ! ?i \<noteq> []"
    using tp by (auto simp: nearestVertex_Nil turf_point_def)
  from nearestVertex_in_feature [OF this, of env p] tp have "v \<in> set (marnet env ! ?i)"
    by (auto simp: turf_point_def)
  with i show ?thesis by simp
qed

lemma snapToNetwork_store_no_compensation:
  assumes nc: "\<forall>ft\<in>set (marnet env). \<forall>c\<in>set ft. rhumb_compensate p c = c"
    and run: "snapToNetwork_store env p (marnet env, con) = (r, st')"
  shows "st' = (marnet env, snd (snapToNetwork env p con))"
    and "(case r of Inl err \<Rightarrow> Inl err | Inr ref \<Rightarrow> Inr (deref st' ref))
           = fst (snapToNetwork env p con)"
proof -
  let ?i = "fst (nearestLine env p)"
  have e: "env = env\<lparr>marnet := marnet env\<rparr>" by simp
  note ref = snapToNetwork_store_refines [OF e run]
  have f: "fst st' = marnet env"
  proof (cases "?i < length (marnet env)")
    case True
    then have "marnet env ! ?i \<in> set (marnet env)" by simp
    with nc have "map (rhumb_compensate p) (marnet env ! ?i) = marnet env ! ?i"
      by (simp add: map_idI)
    with ref(2) True show ?thesis by simp
  next
    case False
    with ref(3) show ?thesis by simp
  qed
  with ref(1) show "st' = (marnet env, snd (snapToNetwork env p con))"
    by (simp add: prod_eq_iff)
  show "(case r of Inl err \<Rightarrow> Inl err | Inr ref \<Rightarrow> Inr (deref st' ref))
           = fst (snapToNetwork env p con)"
  proof (cases "fst (snapToNetwork env p con)")
    case (Inl err)
    with ref(4) show ?thesis by simp
  next
    case (Inr v)
    from snapToNetwork_in_feature [OF Inr] nc have "rhumb_compensate p v = v"
      using nth_mem by blast
    with ref(4) Inr show ?thesis by simp
  qed
qed

lemma searoute_store_no_compensation:
  assumes o: "\<forall>ft\<in>set (marnet env). \<forall>c\<in>set ft. rhumb_compensate origin c = c"
    and d: "\<forall>ft\<in>set (marnet env). \<forall>c\<in>set ft. rhumb_compensate destination c = c"
  shows "searoute_store env origin destination units_arg (marnet env, con)
           = (fst (searoute env origin destination units_arg con),
              (marnet env, snd (searoute env origin destination units_arg con)))"
proof -
  obtain r1 st1 where s1: "snapToNetwork_store env origin (marnet env, con) = (r1, st1)"
    by (cases "snapToNetwork_store env origin (marnet env, con)") blast
  obtain p1 con1 where q1: "snapToNetwork env origin con = (p1, con1)"
    by (cases "snapToNetwork env origin con") blast
  from snapToNetwork_store_no_compensation [OF o s1] q1
  have st1: "st1 = (marnet env, con1)"
    and v1: "(case r1 of Inl err \<Rightarrow> Inl err | Inr ref \<Rightarrow> Inr (deref st1 ref)) = p1"
    by simp_all
  obtain r2 st2 where s2: "snapToNetwork_store env destination (marnet env, con1) = (r2, st2)"
    by (cases "snapToNetwork_store env destination (marnet env, con1)") blast
  obtain p2 con2 where q2: "snapToNetwork env destination con1 = (p2, con2)"
    by (cases "snapToNetwork env destination con1") blast
  from snapToNetwork_store_no_compensation [OF d s2] q2
  have st2: "st2 = (marnet env, con2)"
    and v2: "(case r2 of Inl err \<Rightarrow> Inl err | Inr ref \<Rightarrow> Inr (deref st2 ref)) = p2"
    by simp_all
  have dr: "\<And>ref. deref st2 ref = deref st1 ref" by (simp add: deref_def st1 st2)
  show ?thesis
  proof (cases r1)
    case (Inl err)
    with v1 have "p1 = Inl err" by simp
    then show ?thesis
      using Inl s1 q1 st1 by (simp add: searoute_store_def searoute_def)
  next
    case r1: (Inr ref1)
    with v1 have p1: "p1 = Inr (deref st1 ref1)" by simp
    show ?thesis
    proof (cases r2)
      case (Inl err)
      with v2 have "p2 = Inl err" by simp
      then show ?thesis
        using Inl r1 p1 s1 q1 st1 s2 q2 st2 by (simp add: searoute_store_def searoute_def)
    next
      case r2: (Inr ref2)
      with v2 have p2: "p2 = Inr (deref st2 ref2)" by simp
      show ?thesis
        using r1 r2 p1 p2 s1 q1 s2 q2 dr
        by (auto simp: searoute_store_def searoute_def st1 st2 Let_def
            split: option.splits sum.splits)
    qed
  qed
qed

lemmas store_defs = ex_dateline_def snapToNetwork_store_def searoute_store_def deref_def
  rhumb_compensate_def distanceToSegment_degrees_def nearestLine_def nearestLine_callback_def
  js_not_def ex_findPath_def ex_length_def degrees_apart_def turf_lineString_def Let_def

section \<open>Snapping a point that is already a vertex\<close>

text \<open>
  Claim C2, as amended. Snapping returns \<open>p\<close> itself when \<open>p\<close> is the final vertex of
  the line that the first scan selects for \<open>p\<close> (the vertex distance being \<open>0\<close> from
  \<open>p\<close> to itself and never negative). Nothing is said about a vertex of a line the first
  scan does not select, nor about a vertex that other vertices follow in the selected line.
\<close>

theorem snapToNetwork_last_vertex_fixed:
  assumes net: "marnet env \<noteq> []"
    and ft: "ft = marnet env ! fst (nearestLine env p)"
    and ne: "ft \<noteq> []"
    and lst: "last ft = p"
    and z: "rhumbDistance env p p = 0"
    and nn: "\<forall>c\<in>set ft. 0 \<le> rhumbDistance env p c"
  shows "fst (snapToNetwork env p con) = Inr p"
proof -
  have "nearestVertex env p ft = (Some 0, Some p)"
    using nearestVertex_last_zero [OF ne _ nn] z lst by simp
  then show ?thesis
    using nearestLine_index_bound [OF net, of p] ft
    by (simp add: snapToNetwork_result turf_point_def)
qed

theorem snapToNetwork_last_vertex_fixed_witness:
  "marnet ex_env \<noteq> []
   \<and> [(0, 0), (1, 0), (2, 0)] = marnet ex_env ! fst (nearestLine ex_env (2, 0))
   \<and> last [(0, 0), (1, 0), (2, 0)] = ((2, 0) :: position)
   \<and> rhumbDistance ex_env (2, 0) (2, 0) = 0
   \<and> 0 \<le> rhumbDistance ex_env (2, 0) (0, 0)
   \<and> 0 \<le> rhumbDistance ex_env (2, 0) (1, 0)
   \<and> fst (snapToNetwork ex_env (2, 0) []) = Inr (2, 0)"
proof -
  have h1: "marnet ex_env \<noteq> []" by (simp add: ex_env_def)
  have h2: "[(0, 0), (1, 0), (2, 0)] = marnet ex_env ! fst (nearestLine ex_env (2, 0))"
    by (simp add: ex_defs)
  have h3: "[(0, 0), (1, 0), (2 :: real, 0 :: real)] \<noteq> []" by simp
  have h4: "last [(0, 0), (1, 0), (2, 0)] = ((2, 0) :: position)" by simp
  have h5: "rhumbDistance ex_env (2, 0) (2, 0) = 0" by (simp add: ex_defs)
  have h6: "\<forall>c\<in>set [(0, 0), (1, 0), (2, 0)]. 0 \<le> rhumbDistance ex_env (2, 0) c"
    by (simp add: ex_defs)
  have h7: "0 \<le> rhumbDistance ex_env (2, 0) (0, 0) \<and> 0 \<le> rhumbDistance ex_env (2, 0) (1, 0)"
    by (simp add: ex_defs)
  from snapToNetwork_last_vertex_fixed [OF h1 h2 h3 h4 h5 h6, of "[]"] show ?thesis
    using h1 h2 h4 h5 h7 by blast
qed

text \<open>
  Claim C2 as stated fails: \<open>(1, 0)\<close> is a vertex of the second line and lies on both
  lines; the first scan keeps the first line, whose vertices are \<open>(0, 0)\<close> and
  \<open>(2, 0)\<close>, and snapping returns \<open>(0, 0)\<close>.
\<close>

theorem snapToNetwork_vertex_of_other_line:
  "(1, 0) \<in> set (marnet ex_crossing ! 1)
   \<and> pointToLineDistance ex_crossing (1, 0) (marnet ex_crossing ! 0) = 0
   \<and> pointToLineDistance ex_crossing (1, 0) (marnet ex_crossing ! 1) = 0
   \<and> fst (snapToNetwork ex_crossing (1, 0) []) = Inr (0, 0)
   \<and> fst (snapToNetwork ex_crossing (1, 0) []) \<noteq> Inr (1, 0)"
  by (simp add: ex_defs)


section \<open>Routing from a point to itself\<close>

text \<open>
  Claim C3 asks that \<open>route(p, p, "nm")\<close> be a Route of length \<open>0\<close>. On the code it is an
  exception: both calls of \<open>snapToNetwork\<close> give the same vertex, the route finder's path
  from a vertex to itself is that single vertex, and \<open>turfHelpers.lineString\<close> rejects
  fewer than two positions (lemma \<open>searoute_single_vertex_path\<close> for any network). Here
  the code is run on the point \<open>(-0.25, 0)\<close>, which snaps to \<open>(0, 0)\<close>.
\<close>

theorem searoute_same_point_throws:
  "fst (snapToNetwork ex_env (- 0.25, 0) []) = Inr (0, 0)
   \<and> findPath ex_env (0, 0) (0, 0) = Some [(0, 0)]
   \<and> fst (searoute ex_env (- 0.25, 0) (- 0.25, 0) (Some ''nm'') [])
       = Inl Error_two_or_more_positions"
  by (simp add: ex_defs)

section \<open>No path between the snapped points\<close>

text \<open>
  Claim C4. When both points snap and the route finder returns \<open>null\<close> for the two
  snapped points, \<open>searoute\<close> returns \<open>null\<close> and throws nothing, whatever the units.
\<close>

theorem searoute_no_path_returns_null:
  assumes "fst (snapToNetwork env origin con) = Inr snappedOrigin"
    and "fst (snapToNetwork env destination con) = Inr snappedDestination"
    and "findPath env snappedOrigin snappedDestination = None"
  shows "fst (searoute env origin destination units_arg con) = Inr None"
  using assms by (simp add: searoute_result)

theorem searoute_no_path_returns_null_witness:
  "fst (snapToNetwork ex_env (- 0.25, 0) []) = Inr (0, 0)
   \<and> fst (snapToNetwork ex_env (5, 5.5) []) = Inr (5, 5)
   \<and> findPath ex_env (0, 0) (5, 5) = None
   \<and> fst (searoute ex_env (- 0.25, 0) (5, 5.5) (Some ''miles'') []) = Inr None"
proof -
  have h1: "fst (snapToNetwork ex_env (- 0.25, 0) []) = Inr (0, 0)" by (simp add: ex_defs)
  have h2: "fst (snapToNetwork ex_env (5, 5.5) []) = Inr (5, 5)" by (simp add: ex_defs)
  have h3: "findPath ex_env (0, 0) (5, 5) = None" by (simp add: ex_defs)
  from searoute_no_path_returns_null [OF h1 h2 h3, of "Some ''miles''"] show ?thesis
    using h1 h2 h3 by blast
qed

section \<open>The length of a route\<close>

text \<open>
  Claim C5. Every line string \<open>searoute\<close> returns carries the units of the call; when
  they are \<open>'nm'\<close> its length is the length routine's result in miles times \<open>1.15078\<close>,
  and for any other unit it is the length routine's result in that unit, unchanged.
\<close>

theorem searoute_length_by_units:
  assumes "fst (searoute env origin destination units_arg con) = Inr (Some route)"
  shows "\<exists>units. properties_units route = Some units
     \<and> units = (case units_arg of None \<Rightarrow> ''nm'' | Some u \<Rightarrow> u)
     \<and> (if units = ''nm''
        then \<exists>miles. turf_length env (geometry_coordinates route) ''miles'' = Inr miles
               \<and> properties_length route = Some (miles * 1.15078)
        else \<exists>len. turf_length env (geometry_coordinates route) units = Inr len
               \<and> properties_length route = Some len)"
  using assms
  by (auto simp: searoute_result Let_def split: sum.splits option.splits if_splits)

theorem searoute_length_by_units_witness:
  "fst (searoute ex_env (- 0.25, 0) (2.5, 0) None [])
     = Inr (Some \<lparr>geometry_coordinates = [(0, 0), (2, 0)],
                   properties_units = Some ''nm'',
                   properties_length = Some (138 * 1.15078)\<rparr>)
   \<and> turf_length ex_env [(0, 0), (2, 0)] ''miles'' = Inr 138"
proof -
  have h: "fst (searoute ex_env (- 0.25, 0) (2.5, 0) None [])
     = Inr (Some \<lparr>geometry_coordinates = [(0, 0), (2, 0)],
                   properties_units = Some ''nm'',
                   properties_length = Some (138 * 1.15078)\<rparr>)"
    by (simp add: ex_defs)
  from searoute_length_by_units [OF h] show ?thesis
    using h by simp
qed

section \<open>The vertex scan\<close>

text \<open>
  Claim C6 asks that the second scan return the vertex of the selected line at minimum
  distance from the point, the first such vertex winning ties. The scan tests
  \<open>!nearestVertexDist\<close>, which is also true of the number \<open>0\<close>: after a vertex at
  distance \<open>0\<close> the next vertex replaces it whatever its distance. (Where no vertex is at
  distance \<open>0\<close> the scan does return the first minimum: lemma
  \<open>nearestVertex_first_minimum\<close>.) Here the point \<open>(0, 0)\<close> is the first vertex of the
  line selected for it, at distances \<open>0\<close>, \<open>1\<close> and \<open>2\<close> from the line's three
  vertices, and snapping returns the second vertex.
\<close>

theorem snapToNetwork_skips_zero_distance:
  "marnet ex_env ! fst (nearestLine ex_env (0, 0)) = [(0, 0), (1, 0), (2, 0)]
   \<and> rhumbDistance ex_env (0, 0) (0, 0) = 0
   \<and> rhumbDistance ex_env (0, 0) (1, 0) = 1
   \<and> rhumbDistance ex_env (0, 0) (2, 0) = 2
   \<and> fst (snapToNetwork ex_env (0, 0) []) = Inr (1, 0)"
  by (simp add: ex_defs)

section \<open>The line scan\<close>

text \<open>
  Claim C7. When some line of the network has a distance below 30000 from the point, the
  index \<open>i\<close> the first scan ends with is within the network, the second scan runs on
  line \<open>i\<close>, no line of the network is nearer to the point than line \<open>i\<close>, and every
  line before \<open>i\<close> is strictly farther: the first line at minimum distance is selected.
\<close>

theorem nearestLine_first_minimum:
  assumes "\<exists>f\<in>set (marnet env). pointToLineDistance env p f < 30000"
  shows "\<exists>i<length (marnet env).
           fst (nearestLine env p) = i
         \<and> fst (snapToNetwork env p con)
             = turf_point (snd (nearestVertex env p (marnet env ! i)))
         \<and> pointToLineDistance env p (marnet env ! i) < 30000
         \<and> (\<forall>m<length (marnet env).
               pointToLineDistance env p (marnet env ! i)
                 \<le> pointToLineDistance env p (marnet env ! m))
         \<and> (\<forall>m<i. pointToLineDistance env p (marnet env ! i)
                 < pointToLineDistance env p (marnet env ! m))"
proof -
  from assms have "\<not> (\<forall>f\<in>set (marnet env). \<not> pointToLineDistance env p f < 30000)" by blast
  with nearestLine_cases [of env p] obtain j where j: "j < length (marnet env)"
    "nearestLine env p = (j, pointToLineDistance env p (marnet env ! j))"
    "pointToLineDistance env p (marnet env ! j) < 30000"
    "\<forall>m<length (marnet env).
       pointToLineDistance env p (marnet env ! j) \<le> pointToLineDistance env p (marnet env ! m)"
    "\<forall>m<j. pointToLineDistance env p (marnet env ! j) < pointToLineDistance env p (marnet env ! m)"
    by blast
  have "fst (snapToNetwork env p con) = turf_point (snd (nearestVertex env p (marnet env ! j)))"
    using j(1,2) by (simp add: snapToNetwork_result)
  with j show ?thesis by auto
qed

theorem nearestLine_first_minimum_witness:
  "pointToLineDistance ex_env (5, 5.5) [(5, 5), (6, 5)] < 30000
   \<and> marnet ex_env = [[(0, 0), (1, 0), (2, 0)], [(5, 5), (6, 5)]]
   \<and> fst (nearestLine ex_env (5, 5.5)) = 1
   \<and> pointToLineDistance ex_env (5, 5.5) [(5, 5), (6, 5)]
       < pointToLineDistance ex_env (5, 5.5) [(0, 0), (1, 0), (2, 0)]"
proof -
  have m: "marnet ex_env = [[(0, 0), (1, 0), (2, 0)], [(5, 5), (6, 5)]]"
    by (simp add: ex_env_def)
  have d: "pointToLineDistance ex_env (5, 5.5) [(5, 5), (6, 5)] < 30000"
    by (simp add: ex_defs)
  have h: "\<exists>f\<in>set (marnet ex_env). pointToLineDistance ex_env (5, 5.5) f < 30000"
    using d by (simp add: m)
  have i: "fst (nearestLine ex_env (5, 5.5)) = 1" by (simp add: ex_defs)
  from nearestLine_first_minimum [OF h, of "[]"] obtain k where
    k: "fst (nearestLine ex_env (5, 5.5)) = k"
    "\<forall>m<k. pointToLineDistance ex_env (5, 5.5) (marnet ex_env ! k)
           < pointToLineDistance ex_env (5, 5.5) (marnet ex_env ! m)" by blast
  from k(1) i have "k = 1" by simp
  with k(2) have "pointToLineDistance ex_env (5, 5.5) (marnet ex_env ! 1)
           < pointToLineDistance ex_env (5, 5.5) (marnet ex_env ! 0)" by simp
  then show ?thesis using m d i by simp
qed

section \<open>The geometry of a route\<close>

text \<open>
  Claim C8. The coordinates of every line string \<open>searoute\<close> returns are exactly the path
  the route finder returned for the two snapped points. Its first and last vertices are
  therefore those of that path: they are the snapped origin and destination whenever the
  route finder's paths start and end at the points it is given.
\<close>

theorem searoute_geometry_is_raw_path:
  assumes "fst (searoute env origin destination units_arg con) = Inr (Some route)"
  shows "\<exists>snappedOrigin snappedDestination.
           fst (snapToNetwork env origin con) = Inr snappedOrigin
         \<and> fst (snapToNetwork env destination con) = Inr snappedDestination
         \<and> findPath env snappedOrigin snappedDestination = Some (geometry_coordinates route)
         \<and> ((\<forall>a b path. findPath env a b = Some path \<longrightarrow> hd path = a \<and> last path = b)
              \<longrightarrow> hd (geometry_coordinates route) = snappedOrigin
                \<and> last (geometry_coordinates route) = snappedDestination)"
  using assms
  by (auto simp: searoute_result Let_def split: sum.splits option.splits if_splits)

theorem searoute_geometry_is_raw_path_witness:
  "fst (searoute ex_env (- 0.25, 0) (2.5, 0) None [])
     = Inr (Some \<lparr>geometry_coordinates = [(0, 0), (2, 0)],
                   properties_units = Some ''nm'',
                   properties_length = Some (138 * 1.15078)\<rparr>)
   \<and> fst (snapToNetwork ex_env (- 0.25, 0) []) = Inr (0, 0)
   \<and> fst (snapToNetwork ex_env (2.5, 0) []) = Inr (2, 0)
   \<and> findPath ex_env (0, 0) (2, 0) = Some [(0, 0), (2, 0)]"
proof -
  have h: "fst (searoute ex_env (- 0.25, 0) (2.5, 0) None [])
     = Inr (Some \<lparr>geometry_coordinates = [(0, 0), (2, 0)],
                   properties_units = Some ''nm'',
                   properties_length = Some (138 * 1.15078)\<rparr>)"
    by (simp add: ex_defs)
  have c: "\<forall>a b path. findPath ex_env a b = Some path \<longrightarrow> hd path = a \<and> last path = b"
    by (simp add: ex_env_def ex_findPath_def)
  from searoute_geometry_is_raw_path [OF h] c obtain so sd where
    s: "fst (snapToNetwork ex_env (- 0.25, 0) []) = Inr so"
       "fst (snapToNetwork ex_env (2.5, 0) []) = Inr sd"
       "findPath ex_env so sd = Some [(0, 0), (2, 0)]"
       "hd [(0, 0), (2, 0)] = so" "last [(0, 0), (2, 0)] = sd"
    by auto
  from s(4,5) have "so = (0, 0)" "sd = (2, 0)" by simp_all
  with s(1,2,3) h show ?thesis by simp
qed

section \<open>Repeated calls\<close>

text \<open>
  Claim C9 asks that two calls of \<open>route\<close> with the same origin, destination and units
  return the same Route, and that snapping depend on its inputs only. On the code the
  second scan rewrites the network: here the origin \<open>(170, 1)\<close> is nearest to the line
  from \<open>(175, 0)\<close> to \<open>(-175, 0)\<close>, whose second array the first call leaves as
  \<open>(185, 0)\<close>. The first call snaps the origin to \<open>(175, 0)\<close> and finds no route; the
  second call, with the same arguments, finds the line as rewritten farther away than the
  other line, snaps the origin to \<open>(170, 4)\<close> and returns a route.
\<close>

theorem searoute_repeated_call_differs:
  "fst (snapToNetwork_store ex_dateline (170, 1) (marnet ex_dateline, [])) = Inr (0, 0)
   \<and> deref (snd (snapToNetwork_store ex_dateline (170, 1) (marnet ex_dateline, []))) (0, 0)
       = (175, 0)
   \<and> fst (snapToNetwork_store ex_dateline (170, 1)
            (snd (snapToNetwork_store ex_dateline (170, 1) (marnet ex_dateline, []))))
       = Inr (1, 0)
   \<and> deref (snd (snapToNetwork_store ex_dateline (170, 1)
            (snd (snapToNetwork_store ex_dateline (170, 1) (marnet ex_dateline, []))))) (1, 0)
       = (170, 4)
   \<and> fst (searoute_store ex_dateline (170, 1) (171, 5) None (marnet ex_dateline, [])) = Inr None
   \<and> fst (snd (searoute_store ex_dateline (170, 1) (171, 5) None (marnet ex_dateline, [])))
       = [[(175, 0), (185, 0)], [(170, 4), (171, 4)]]
   \<and> fst (searoute_store ex_dateline (170, 1) (171, 5) None
            (snd (searoute_store ex_dateline (170, 1) (171, 5) None (marnet ex_dateline, []))))
       = Inr (Some \<lparr>geometry_coordinates = [(170, 4), (171, 4)],
                     properties_units = Some ''nm'',
                     properties_length = Some (69 * 1.15078)\<rparr>)"
  by (simp add: store_defs)

section \<open>The units argument\<close>

text \<open>
  Claim C10. No string is rejected as units. For every string \<open>u\<close>: a line string
  returned carries \<open>u\<close> as its units; when \<open>u\<close> is not \<open>'nm'\<close> and a path of at least two
  positions was found, the outcome is that of the length routine called with \<open>u\<close> itself
  (its exception, or the line string with the length it returned); and a failure of
  snapping and the \<open>null\<close> of a missing path come out unchanged.
\<close>

theorem searoute_units_not_validated:
  "(\<forall>route. fst (searoute env origin destination (Some u) con) = Inr (Some route)
       \<longrightarrow> properties_units route = Some u)
   \<and> (\<forall>so sd path.
         u \<noteq> ''nm''
         \<longrightarrow> fst (snapToNetwork env origin con) = Inr so
         \<longrightarrow> fst (snapToNetwork env destination con) = Inr sd
         \<longrightarrow> findPath env so sd = Some path
         \<longrightarrow> 2 \<le> length path
         \<longrightarrow> fst (searoute env origin destination (Some u) con)
               = (case turf_length env path u of
                    Inl err \<Rightarrow> Inl err
                  | Inr len \<Rightarrow> Inr (Some \<lparr>geometry_coordinates = path,
                                 properties_units = Some u,
                                 properties_length = Some len\<rparr>)))
   \<and> (\<forall>err. fst (snapToNetwork env origin con) = Inl err
         \<longrightarrow> fst (searoute env origin destination (Some u) con) = Inl err)
   \<and> (\<forall>so err. fst (snapToNetwork env origin con) = Inr so
         \<longrightarrow> fst (snapToNetwork env destination con) = Inl err
         \<longrightarrow> fst (searoute env origin destination (Some u) con) = Inl err)
   \<and> (\<forall>so sd. fst (snapToNetwork env origin con) = Inr so
         \<longrightarrow> fst (snapToNetwork env destination con) = Inr sd
         \<longrightarrow> findPath env so sd = None
         \<longrightarrow> fst (searoute env origin destination (Some u) con) = Inr None)"
  by (auto simp: searoute_result Let_def split: sum.splits option.splits if_splits)

theorem searoute_units_not_validated_witness:
  "fst (snapToNetwork ex_env (- 0.25, 0) []) = Inr (0, 0)
   \<and> fst (snapToNetwork ex_env (2.5, 0) []) = Inr (2, 0)
   \<and> findPath ex_env (0, 0) (2, 0) = Some [(0, 0), (2, 0)]
   \<and> turf_length ex_env [(0, 0), (2, 0)] ''furlongs'' = Inl (Error_thrown ''units is invalid'')
   \<and> fst (searoute ex_env (- 0.25, 0) (2.5, 0) (Some ''furlongs'') [])
       = Inl (Error_thrown ''units is invalid'')
   \<and> fst (snapToNetwork ex_env (5, 5.5) []) = Inr (5, 5)
   \<and> findPath ex_env (0, 0) (5, 5) = None
   \<and> fst (searoute ex_env (- 0.25, 0) (5, 5.5) (Some ''furlongs'') []) = Inr None"
proof -
  have h1: "fst (snapToNetwork ex_env (- 0.25, 0) []) = Inr (0, 0)" by (simp add: ex_defs)
  have h2: "fst (snapToNetwork ex_env (2.5, 0) []) = Inr (2, 0)" by (simp add: ex_defs)
  have h3: "findPath ex_env (0, 0) (2, 0) = Some [(0, 0), (2, 0)]" by (simp add: ex_defs)
  have h4: "turf_length ex_env [(0, 0), (2, 0)] ''furlongs''
              = Inl (Error_thrown ''units is invalid'')" by (simp add: ex_defs)
  have h5: "fst (snapToNetwork ex_env (5, 5.5) []) = Inr (5, 5)" by (simp add: ex_defs)
  have h6: "findPath ex_env (0, 0) (5, 5) = None" by (simp add: ex_defs)
  have u: "''furlongs'' \<noteq> ''nm''" by simp
  have l: "2 \<le> length [(0, 0), (2 :: real, 0 :: real)]" by simp
  note t1 = searoute_units_not_validated [of ex_env "(- 0.25, 0)" "(2.5, 0)" "''furlongs''" "[]"]
  note t2 = searoute_units_not_validated [of ex_env "(- 0.25, 0)" "(5, 5.5)" "''furlongs''" "[]"]
  from t1 u h1 h2 h3 l
  have a: "fst (searoute ex_env (- 0.25, 0) (2.5, 0) (Some ''furlongs'') [])
       = (case turf_length ex_env [(0, 0), (2, 0)] ''furlongs'' of
                    Inl err \<Rightarrow> Inl err
                  | Inr len \<Rightarrow> Inr (Some \<lparr>geometry_coordinates = [(0, 0), (2, 0)],
                                 properties_units = Some ''furlongs'',
                                 properties_length = Some len\<rparr>))"
    by blast
  from t2 h1 h5 h6
  have b: "fst (searoute ex_env (- 0.25, 0) (5, 5.5) (Some ''furlongs'') []) = Inr None"
    by blast
  show ?thesis using a b h1 h2 h3 h4 h5 h6 by simp
qed

end
